theory Spec2Isabelle
  imports Complex_Main
begin

section \<open>The experiment protocol compiler of \<^verbatim>\<open>pybamm/experiment/experiment.py\<close>\<close>

text \<open>
  The class \<^verbatim>\<open>Experiment\<close> is embedded as functions over an explicit object store.
  Exceptions are values of the type \<open>error\<close>; a function that may raise returns
  \<open>error + 'a\<close> with \<open>Inl\<close> for the exception.
\<close>

datatype error = ValueError string | TypeError string | IndexError | KeyError

subsection \<open>Python string operations used by the class\<close>

text \<open>
  Strings are byte strings. \<open>is_space\<close> lists the ASCII characters that
  \<^verbatim>\<open>str.split()\<close> treats as whitespace; whitespace beyond ASCII is not represented.
\<close>

definition is_space :: "char \<Rightarrow> bool" where
  "is_space c = (c \<in> set [CHR '' '', CHR 0x09, CHR 0x0A, CHR 0x0B, CHR 0x0C, CHR 0x0D,
                             CHR 0x1C, CHR 0x1D, CHR 0x1E, CHR 0x1F])"

text \<open>\<^verbatim>\<open>s.split()\<close>: the maximal runs of non-whitespace characters, in order.\<close>

fun split_ws_from :: "string \<Rightarrow> string \<Rightarrow> string list" where
  "split_ws_from acc [] = (if acc = [] then [] else [rev acc])"
| "split_ws_from acc (c # cs) =
     (if is_space c
      then (if acc = [] then split_ws_from [] cs else rev acc # split_ws_from [] cs)
      else split_ws_from (c # acc) cs)"

definition split_ws :: "string \<Rightarrow> string list" where
  "split_ws s = split_ws_from [] s"

definition startswith :: "string \<Rightarrow> string \<Rightarrow> bool" where
  "startswith s p = (take (length p) s = p)"

definition endswith :: "string \<Rightarrow> string \<Rightarrow> bool" where
  "endswith s suf = (length suf \<le> length s \<and> drop (length s - length suf) s = suf)"

text \<open>
  \<^verbatim>\<open>s.split(sep)\<close> for a non-empty separator: the pieces between the non-overlapping
  occurrences of \<open>sep\<close>, found from the left. The result is never empty.
\<close>

fun split_from :: "string \<Rightarrow> string \<Rightarrow> string \<Rightarrow> string list" where
  "split_from sep acc [] = [rev acc]"
| "split_from sep acc (c # cs) =
     (if sep \<noteq> [] \<and> startswith (c # cs) sep
      then rev acc # split_from sep [] (drop (length sep) (c # cs))
      else split_from sep (c # acc) cs)"

definition str_split :: "string \<Rightarrow> string \<Rightarrow> string list" where
  "str_split s sep = split_from sep [] s"

text \<open>\<^verbatim>\<open>sep.join(pieces)\<close> and \<^verbatim>\<open>s.replace(old, new)\<close>; both return a new string.\<close>

fun str_join :: "string \<Rightarrow> string list \<Rightarrow> string" where
  "str_join sep [] = []"
| "str_join sep [p] = p"
| "str_join sep (p # q # ps) = p @ sep @ str_join sep (q # ps)"

definition str_replace :: "string \<Rightarrow> string \<Rightarrow> string \<Rightarrow> string" where
  "str_replace s old new = str_join new (str_split s old)"

text \<open>\<^verbatim>\<open>sub in s\<close> for strings.\<close>

fun str_contains :: "string \<Rightarrow> string \<Rightarrow> bool" where
  "str_contains sub [] = (sub = [])"
| "str_contains sub (c # cs) = (startswith (c # cs) sub \<or> str_contains sub cs)"

text \<open>\<^verbatim>\<open>xs[0]\<close> and \<^verbatim>\<open>xs[-1]\<close>, which raise \<^verbatim>\<open>IndexError\<close> on an empty list.\<close>

definition index_first :: "'a list \<Rightarrow> error + 'a" where
  "index_first xs = (case xs of [] \<Rightarrow> Inl IndexError | x # _ \<Rightarrow> Inr x)"

definition index_last :: "'a list \<Rightarrow> error + 'a" where
  "index_last xs = (if xs = [] then Inl IndexError else Inr (last xs))"

subsection \<open>Python sets and dictionaries\<close>

text \<open>
  A \<^verbatim>\<open>set\<close> is the list of its elements and a \<^verbatim>\<open>dict\<close> an association list, both
  without two equal entries or keys, where \<open>eq\<close> is the equality (\<^verbatim>\<open>__eq__\<close>,
  consistent with \<^verbatim>\<open>__hash__\<close>) of the element type. Adding an element that equals one
  already present keeps the one present. The lists are kept in insertion order; the
  iteration order of a Python set is not specified, and no statement below depends
  on it.
\<close>

definition set_add :: "('a \<Rightarrow> 'a \<Rightarrow> bool) \<Rightarrow> 'a list \<Rightarrow> 'a \<Rightarrow> 'a list" where
  "set_add eq S x = (if list_ex (\<lambda>y. eq y x) S then S else S @ [x])"

text \<open>\<^verbatim>\<open>set(xs)\<close>\<close>

definition py_set :: "('a \<Rightarrow> 'a \<Rightarrow> bool) \<Rightarrow> 'a list \<Rightarrow> 'a list" where
  "py_set eq xs = foldl (set_add eq) [] xs"

text \<open>\<^verbatim>\<open>d[k] = v\<close>\<close>

fun dict_set :: "('k \<Rightarrow> 'k \<Rightarrow> bool) \<Rightarrow> ('k \<times> 'v) list \<Rightarrow> 'k \<Rightarrow> 'v \<Rightarrow> ('k \<times> 'v) list" where
  "dict_set eq [] k v = [(k, v)]"
| "dict_set eq ((k', v') # d) k v =
     (if eq k' k then (k', v) # d else (k', v') # dict_set eq d k v)"

text \<open>\<^verbatim>\<open>d[k]\<close>, which raises \<^verbatim>\<open>KeyError\<close> for a missing key.\<close>

fun dict_get :: "('k \<Rightarrow> 'k \<Rightarrow> bool) \<Rightarrow> ('k \<times> 'v) list \<Rightarrow> 'k \<Rightarrow> error + 'v" where
  "dict_get eq [] k = Inl KeyError"
| "dict_get eq ((k', v') # d) k = (if eq k' k then Inr v' else dict_get eq d k)"

text \<open>A list comprehension whose element expression may raise.\<close>

fun map_result :: "('a \<Rightarrow> error + 'b) \<Rightarrow> 'a list \<Rightarrow> error + 'b list" where
  "map_result f [] = Inr []"
| "map_result f (x # xs) =
     (case f x of
        Inl e \<Rightarrow> Inl e
      | Inr y \<Rightarrow> (case map_result f xs of Inl e \<Rightarrow> Inl e | Inr ys \<Rightarrow> Inr (y # ys)))"

subsection \<open>The builtin \<^verbatim>\<open>float\<close> on decimal literals\<close>

text \<open>
  \<open>read_termination\<close> below takes the conversion \<^verbatim>\<open>float\<close> as an argument.
  \<open>float_decimal\<close> is that conversion on the literals
  \<^verbatim>\<open>[ws][+|-]digits[.digits][ws]\<close> (with at least one digit): the number is the exact
  decimal value, which is what CPython returns whenever that value is a double, as
  for 80, 4 and 2.5. On the exponent, underscore, \<^verbatim>\<open>inf\<close> and \<^verbatim>\<open>nan\<close> spellings, which
  CPython accepts as well, \<open>float_decimal\<close> is not the builtin; no statement below
  applies it to one of them.
\<close>

text \<open>
  \<^verbatim>\<open>float\<close> ignores leading and trailing blanks, tabs, line feeds, vertical tabs, form
  feeds and carriage returns; unlike \<^verbatim>\<open>str.split()\<close> it does not take the separators
  0x1C to 0x1F for whitespace.
\<close>

definition is_float_space :: "char \<Rightarrow> bool" where
  "is_float_space c = (c \<in> set [CHR '' '', CHR 0x09, CHR 0x0A, CHR 0x0B, CHR 0x0C, CHR 0x0D])"

definition strip :: "string \<Rightarrow> string" where
  "strip s = rev (dropWhile is_float_space (rev (dropWhile is_float_space s)))"

definition digit_of :: "char \<Rightarrow> nat option" where
  "digit_of c = (let n = (of_char c :: nat) in if 48 \<le> n \<and> n \<le> 57 then Some (n - 48) else None)"

fun digits_value :: "nat \<Rightarrow> string \<Rightarrow> nat option" where
  "digits_value acc [] = Some acc"
| "digits_value acc (c # cs) =
     (case digit_of c of None \<Rightarrow> None | Some d \<Rightarrow> digits_value (10 * acc + d) cs)"

definition float_error :: error where
  "float_error = ValueError ''could not convert string to float''"

definition float_decimal :: "string \<Rightarrow> error + rat" where
  "float_decimal s =
     (let t = strip s;
          neg = (t \<noteq> [] \<and> hd t = CHR ''-'');
          u = (if t \<noteq> [] \<and> (hd t = CHR ''-'' \<or> hd t = CHR ''+'') then tl t else t);
          ip = takeWhile (\<lambda>c. c \<noteq> CHR ''.'') u;
          fp = drop (length ip + 1) u
      in if ip = [] \<and> fp = [] then Inl float_error
         else (case (digits_value 0 ip, digits_value 0 fp) of
                 (Some i, Some f) \<Rightarrow>
                   Inr ((if neg then - 1 else 1) * (of_nat i + of_nat f / 10 ^ length fp))
               | _ \<Rightarrow> Inl float_error))"

subsection \<open>\<^verbatim>\<open>Experiment.read_termination\<close>\<close>

text \<open>
  The argument \<^verbatim>\<open>termination\<close> is \<^verbatim>\<open>None\<close>, one string or a list of strings. The
  result is a \<^verbatim>\<open>dict\<close> from the kind to a pair of magnitude and unit, kept as an
  association list in insertion order.
\<close>

datatype termination_spec = TermNone | TermStr string | TermList "string list"

type_synonym termination_dict = "(string \<times> (rat \<times> string)) list"


text \<open>The two messages of the source; \<open>quoted s\<close> is \<open>s\<close> between apostrophes.\<close>

definition quoted :: "string \<Rightarrow> string" where
  "quoted s = CHR 0x27 # s @ [CHR 0x27]"

definition capacity_format_error :: error where
  "capacity_format_error =
     ValueError (''Capacity termination must be given in the form '' @
                 quoted ''80%'' @ '', '' @ quoted ''4Ah'' @ '', or '' @ quoted ''4A.h'')"

definition termination_kind_error :: error where
  "termination_kind_error =
     ValueError (''Only capacity or voltage can be provided as a termination reason, '' @
                 ''e.g. '' @ quoted ''80% capacity'' @ '', '' @ quoted ''4 Ah capacity'' @
                 '', or '' @ quoted ''2.5 V'')"

text \<open>
  The body of the loop over the termination strings. \<^verbatim>\<open>"".join(term_list[:-1])\<close> is
  the concatenation of all tokens but the last. The result of
  \<^verbatim>\<open>end_discharge.replace("A.h", "Ah")\<close> is not assigned in the source, so the
  bound name \<open>replaced\<close> is not used afterwards.
\<close>

definition read_termination_entry ::
  "(string \<Rightarrow> error + rat) \<Rightarrow> termination_dict \<Rightarrow> string \<Rightarrow> error + termination_dict" where
  "read_termination_entry float_of termination_dict trm =
     (let term_list = split_ws trm in
      case index_last term_list of
        Inl e \<Rightarrow> Inl e
      | Inr last_token \<Rightarrow>
          if last_token = ''capacity'' then
            (let end_discharge = concat (butlast term_list);
                 replaced = str_replace end_discharge ''A.h'' ''Ah''
             in if endswith end_discharge ''%'' then
                  (case index_first (str_split end_discharge ''%'') of
                     Inl e \<Rightarrow> Inl e
                   | Inr end_discharge_percent \<Rightarrow>
                       (case float_of end_discharge_percent of
                          Inl e \<Rightarrow> Inl e
                        | Inr v \<Rightarrow> Inr (dict_set (=) termination_dict ''capacity'' (v, ''%''))))
                else if endswith end_discharge ''Ah'' then
                  (case index_first (str_split end_discharge ''Ah'') of
                     Inl e \<Rightarrow> Inl e
                   | Inr end_discharge_Ah \<Rightarrow>
                       (case float_of end_discharge_Ah of
                          Inl e \<Rightarrow> Inl e
                        | Inr v \<Rightarrow> Inr (dict_set (=) termination_dict ''capacity'' (v, ''Ah''))))
                else Inl capacity_format_error)
          else if endswith trm ''V'' then
            (case index_first (str_split trm ''V'') of
               Inl e \<Rightarrow> Inl e
             | Inr end_discharge_V \<Rightarrow>
                 (case float_of end_discharge_V of
                    Inl e \<Rightarrow> Inl e
                  | Inr v \<Rightarrow> Inr (dict_set (=) termination_dict ''voltage'' (v, ''V''))))
          else Inl termination_kind_error)"

fun read_termination_loop ::
  "(string \<Rightarrow> error + rat) \<Rightarrow> termination_dict \<Rightarrow> string list \<Rightarrow> error + termination_dict" where
  "read_termination_loop float_of termination_dict [] = Inr termination_dict"
| "read_termination_loop float_of termination_dict (trm # rest) =
     (case read_termination_entry float_of termination_dict trm of
        Inl e \<Rightarrow> Inl e
      | Inr d \<Rightarrow> read_termination_loop float_of d rest)"

definition read_termination ::
  "(string \<Rightarrow> error + rat) \<Rightarrow> termination_spec \<Rightarrow> error + termination_dict" where
  "read_termination float_of termination =
     (case termination of
        TermNone \<Rightarrow> Inr []
      | TermStr s \<Rightarrow> read_termination_loop float_of [] [s]
      | TermList l \<Rightarrow> read_termination_loop float_of [] l)"

subsection \<open>Step objects and the object store\<close>

text \<open>
  Modelled from the spec: the class \<^verbatim>\<open>_Step\<close> lives in \<^verbatim>\<open>steps.py\<close>, which is not
  among the sources at hand. The spec gives a Step the attributes \<^verbatim>\<open>period\<close> and
  \<^verbatim>\<open>temperature\<close> (\<^verbatim>\<open>None\<close> until resolved) and operation semantics that the
  experiment never inspects; \<open>operation\<close> stands for the latter, fixed when the Step
  is created. A Step is an object: it has an address in the store, and the experiment
  holds addresses. \<^verbatim>\<open>Experiment.__init__\<close> writes \<^verbatim>\<open>period\<close> and \<^verbatim>\<open>temperature\<close> of
  Steps in place, which is an update of the store.
\<close>

type_synonym addr = nat

record step =
  operation :: string
  period :: "rat option"
  temperature :: "rat option"

type_synonym heap = "step list"

text \<open>
  A raw instruction is a string or a pre-built Step object. An element of
  \<^verbatim>\<open>operating_conditions\<close> is one instruction or a tuple of instructions (the test
  \<^verbatim>\<open>isinstance(cycle, tuple)\<close> of the constructor recognises no other grouping).
\<close>

datatype instruction = Str string | StepObj addr

datatype condition = Single instruction | Tuple "instruction list"

text \<open>
  What the constructor calls but does not define. \<open>string_step\<close> is
  \<^verbatim>\<open>pybamm.experiment.string\<close>, giving the attributes of the Step object it creates,
  \<open>convert_time_to_seconds\<close> and \<open>convert_temperature_to_kelvin\<close> are the two
  helpers imported from \<^verbatim>\<open>steps.py\<close>, and \<open>to_float\<close> is the builtin \<^verbatim>\<open>float\<close>.
  \<open>step_key\<close> is what \<^verbatim>\<open>__eq__\<close> and \<^verbatim>\<open>__hash__\<close> of a Step object compare: two
  Step objects are equal when their keys are. The key may depend on the address (the
  key \<open>\<lambda>a op. a\<close> is Python's default, equality by identity) and on the operation.
\<close>

record 'k env =
  string_step :: "string \<Rightarrow> error + step"
  convert_time_to_seconds :: "string \<Rightarrow> error + rat option"
  convert_temperature_to_kelvin :: "rat option \<Rightarrow> error + rat option"
  to_float :: "string \<Rightarrow> error + rat"
  step_key :: "addr \<Rightarrow> string \<Rightarrow> 'k"

definition step_eq :: "(addr \<Rightarrow> string \<Rightarrow> 'k) \<Rightarrow> heap \<Rightarrow> addr \<Rightarrow> addr \<Rightarrow> bool" where
  "step_eq key h a b = (key a (operation (h ! a)) = key b (operation (h ! b)))"

text \<open>Equality of raw instructions: strings by value, Step objects by their keys.\<close>

fun instruction_eq ::
  "(addr \<Rightarrow> string \<Rightarrow> 'k) \<Rightarrow> heap \<Rightarrow> instruction \<Rightarrow> instruction \<Rightarrow> bool" where
  "instruction_eq key h (Str s) (Str t) = (s = t)"
| "instruction_eq key h (StepObj a) (StepObj b) = step_eq key h a b"
| "instruction_eq key h (Str s) (StepObj b) = False"
| "instruction_eq key h (StepObj a) (Str t) = False"

subsection \<open>\<^verbatim>\<open>Experiment.__init__\<close>\<close>

record Experiment =
  args :: "condition list \<times> string \<times> rat option \<times> termination_spec"
  operating_conditions_cycles :: "instruction list list"
  cycle_lengths :: "nat list"
  unique_steps :: "addr list"
  operating_conditions_steps :: "addr list"
  termination_string :: termination_spec
  experiment_termination :: termination_dict
  experiment_period :: "rat option"
  experiment_temperature :: "rat option"

definition cccv_handling_error :: error where
  "cccv_handling_error =
     ValueError (''cccv_handling has been deprecated, use '' @
                 ''`pybamm.experiment.cccv_ode(current, voltage)` instead to produce the '' @
                 ''same behavior as the old `cccv_handling='' @ quoted ''ode'' @ ''`'')"

definition drive_cycles_error :: error where
  "drive_cycles_error =
     ValueError (''drive_cycles should now be passed as an experiment step object, e.g. '' @
                 ''`pybamm.experiment.current(drive_cycle)`'')"

text \<open>\<^verbatim>\<open>if not isinstance(cycle, tuple): cycle = (cycle,)\<close>\<close>

definition as_cycle :: "condition \<Rightarrow> instruction list" where
  "as_cycle cycle = (case cycle of Tuple steps \<Rightarrow> steps | Single step \<Rightarrow> [step])"

text \<open>
  The loop that fills \<^verbatim>\<open>processed_steps\<close>: a string is converted by \<open>string_step\<close>
  and the new Step object is put at the next free address of the store; a Step
  object is kept as it is.
\<close>

fun process_steps ::
  "'k env \<Rightarrow> heap \<Rightarrow> (instruction \<times> addr) list \<Rightarrow> instruction list
     \<Rightarrow> error + (heap \<times> (instruction \<times> addr) list)" where
  "process_steps E h processed_steps [] = Inr (h, processed_steps)"
| "process_steps E h processed_steps (Str s # rest) =
     (case string_step E s of
        Inl e \<Rightarrow> Inl e
      | Inr new_step \<Rightarrow>
          process_steps E (h @ [new_step])
            (dict_set (instruction_eq (step_key E) (h @ [new_step])) processed_steps (Str s) (length h))
            rest)"
| "process_steps E h processed_steps (StepObj a # rest) =
     process_steps E h
       (dict_set (instruction_eq (step_key E) h) processed_steps (StepObj a) a) rest"

text \<open>The body and the loop of the in-place modification of the unique steps.\<close>

definition inject_step :: "rat option \<Rightarrow> rat option \<Rightarrow> step \<Rightarrow> step" where
  "inject_step default_period default_temperature st =
     (let st1 = (if period st = None then st\<lparr>period := default_period\<rparr> else st)
      in if temperature st1 = None then st1\<lparr>temperature := default_temperature\<rparr> else st1)"

fun inject_defaults :: "rat option \<Rightarrow> rat option \<Rightarrow> heap \<Rightarrow> addr list \<Rightarrow> heap" where
  "inject_defaults default_period default_temperature h [] = h"
| "inject_defaults default_period default_temperature h (a # rest) =
     inject_defaults default_period default_temperature
       (h[a := inject_step default_period default_temperature (h ! a)]) rest"

text \<open>
  The constructor, on the store \<open>h\<close>. It returns the store after construction and
  the new experiment, or the exception raised.
\<close>

definition Experiment_init ::
  "'k env \<Rightarrow> heap \<Rightarrow> condition list \<Rightarrow> string \<Rightarrow> rat option \<Rightarrow> termination_spec
     \<Rightarrow> 'dc option \<Rightarrow> 'cc option \<Rightarrow> error + (heap \<times> Experiment)" where
  "Experiment_init E h operating_conditions period_arg temperature_arg termination_arg
       drive_cycles cccv_handling =
     (if cccv_handling \<noteq> None then Inl cccv_handling_error
      else if drive_cycles \<noteq> None then Inl drive_cycles_error
      else
        (let cycles = map as_cycle operating_conditions;
             lengths = map length cycles;
             steps_unprocessed = concat cycles;
             unique_steps_unprocessed =
               py_set (instruction_eq (step_key E) h) steps_unprocessed
         in case process_steps E h [] unique_steps_unprocessed of
              Inl e \<Rightarrow> Inl e
            | Inr (h1, processed_steps) \<Rightarrow>
                (let uniq = py_set (step_eq (step_key E) h1) (map snd processed_steps)
                 in case map_result (dict_get (instruction_eq (step_key E) h1) processed_steps)
                           steps_unprocessed of
                      Inl e \<Rightarrow> Inl e
                    | Inr steps \<Rightarrow>
                        (case read_termination (to_float E) termination_arg of
                           Inl e \<Rightarrow> Inl e
                         | Inr termination_dict \<Rightarrow>
                             (case convert_time_to_seconds E period_arg of
                                Inl e \<Rightarrow> Inl e
                              | Inr p \<Rightarrow>
                                  (case convert_temperature_to_kelvin E temperature_arg of
                                     Inl e \<Rightarrow> Inl e
                                   | Inr t \<Rightarrow>
                                       Inr (inject_defaults p t h1 uniq,
                                            \<lparr>args = (operating_conditions, period_arg,
                                                     temperature_arg, termination_arg),
                                             operating_conditions_cycles = cycles,
                                             cycle_lengths = lengths,
                                             unique_steps = uniq,
                                             operating_conditions_steps = steps,
                                             termination_string = termination_arg,
                                             experiment_termination = termination_dict,
                                             experiment_period = p,
                                             experiment_temperature = t\<rparr>)))))))"


subsection \<open>\<^verbatim>\<open>Experiment.search_tag\<close>\<close>

text \<open>
  The inner loop over one cycle returns whether the cycle's index is appended (the
  \<^verbatim>\<open>break\<close>). The cycles hold the raw instructions. For a string, \<^verbatim>\<open>" [" in cond\<close> is
  the substring test, and the unpacking \<^verbatim>\<open>cond, tag_str = cond.split(" [")\<close> raises
  \<^verbatim>\<open>ValueError\<close> unless the split has two pieces.
\<close>

text \<open>
  Modelled from the spec: what \<^verbatim>\<open>" [" in cond\<close> does for a Step object is decided by
  the class \<^verbatim>\<open>_Step\<close> of \<^verbatim>\<open>steps.py\<close>, which is not among the sources at hand. The Step
  of the spec's data model is an object with attributes and no container behaviour:
  it has none of \<^verbatim>\<open>__contains__\<close>, \<^verbatim>\<open>__iter__\<close> and \<^verbatim>\<open>__getitem__\<close>, and for such an
  object the operator \<^verbatim>\<open>in\<close> raises \<^verbatim>\<open>TypeError\<close>.
\<close>

definition not_iterable_error :: error where
  "not_iterable_error = TypeError (''argument of type '' @ quoted ''_Step'' @ '' is not iterable'')"

definition unpack_error :: error where
  "unpack_error = ValueError ''too many values to unpack (expected 2)''"

fun search_cycle :: "string \<Rightarrow> instruction list \<Rightarrow> error + bool" where
  "search_cycle tag [] = Inr False"
| "search_cycle tag (StepObj a # rest) = Inl not_iterable_error"
| "search_cycle tag (Str cond # rest) =
     (if str_contains '' ['' cond then
        (case str_split cond '' ['' of
           [cond', tag_str] \<Rightarrow>
             (let tags = str_split (butlast tag_str) '',''
              in if tag \<in> set tags then Inr True else search_cycle tag rest)
         | _ \<Rightarrow> Inl unpack_error)
      else search_cycle tag rest)"

fun search_cycles :: "string \<Rightarrow> nat \<Rightarrow> nat list \<Rightarrow> instruction list list \<Rightarrow> error + nat list" where
  "search_cycles tag i cycles [] = Inr cycles"
| "search_cycles tag i cycles (cycle # rest) =
     (case search_cycle tag cycle of
        Inl e \<Rightarrow> Inl e
      | Inr found \<Rightarrow> search_cycles tag (Suc i) (if found then cycles @ [i] else cycles) rest)"

definition search_tag :: "Experiment \<Rightarrow> string \<Rightarrow> error + nat list" where
  "search_tag self tag = search_cycles tag 0 [] (operating_conditions_cycles self)"

subsection \<open>Well-formed inputs\<close>

text \<open>
  \<open>raw_instructions\<close> is the list \<^verbatim>\<open>operating_conditions_steps_unprocessed\<close> of the
  constructor: the instructions of all cycles, in order. \<open>valid_conditions\<close> says that
  every Step object among them is an object of the store (a reference in Python always
  is), \<open>strings_only\<close> that no instruction is a Step object, and \<open>is_Single\<close> that an
  element of \<^verbatim>\<open>operating_conditions\<close> is not a tuple.
\<close>

definition raw_instructions :: "condition list \<Rightarrow> instruction list" where
  "raw_instructions operating_conditions = concat (map as_cycle operating_conditions)"

fun valid_instruction :: "nat \<Rightarrow> instruction \<Rightarrow> bool" where
  "valid_instruction n (Str s) = True"
| "valid_instruction n (StepObj a) = (a < n)"

definition valid_conditions :: "heap \<Rightarrow> condition list \<Rightarrow> bool" where
  "valid_conditions h operating_conditions =
     list_all (valid_instruction (length h)) (raw_instructions operating_conditions)"

fun is_Str :: "instruction \<Rightarrow> bool" where
  "is_Str (Str s) = True"
| "is_Str (StepObj a) = False"

definition strings_only :: "condition list \<Rightarrow> bool" where
  "strings_only operating_conditions = list_all is_Str (raw_instructions operating_conditions)"

fun is_Single :: "condition \<Rightarrow> bool" where
  "is_Single (Single x) = True"
| "is_Single (Tuple xs) = False"

text \<open>
  The store when the constructor reaches its last loop, the one over the unique
  steps: the store it was entered with, followed by the Step objects created from the
  strings. (If \<^verbatim>\<open>pybamm.experiment.string\<close> raises, the loop is not reached.)
\<close>

definition store_before_injection :: "'k env \<Rightarrow> heap \<Rightarrow> condition list \<Rightarrow> heap" where
  "store_before_injection E h operating_conditions =
     (case process_steps E h []
             (py_set (instruction_eq (step_key E) h) (raw_instructions operating_conditions)) of
        Inl e \<Rightarrow> h
      | Inr (h1, processed_steps) \<Rightarrow> h1)"

text \<open>
  Invariants of \<^verbatim>\<open>processed_steps\<close> while it is filled, for a store that had \<open>n\<close>
  objects when the constructor was entered: a string is mapped to the Step created
  from it, at an address from \<open>n\<close> on; a Step object is mapped to an object that
  was in the store before and equals it.
\<close>

fun str_entry_ok :: "'k env \<Rightarrow> nat \<Rightarrow> heap \<Rightarrow> instruction \<times> addr \<Rightarrow> bool" where
  "str_entry_ok E n h (Str s, v) = (n \<le> v \<and> v < length h \<and> string_step E s = Inr (h ! v))"
| "str_entry_ok E n h (StepObj b, v) = True"

fun entry_ok :: "'k env \<Rightarrow> nat \<Rightarrow> heap \<Rightarrow> instruction \<times> addr \<Rightarrow> bool" where
  "entry_ok E n h (Str s, v) = (n \<le> v \<and> v < length h \<and> string_step E s = Inr (h ! v))"
| "entry_ok E n h (StepObj b, v) = (b < n \<and> v < n \<and> step_eq (step_key E) h v b)"

subsection \<open>Collaborators for concrete runs\<close>

text \<open>
  Modelled from the spec: \<^verbatim>\<open>pybamm.experiment.string\<close>, \<^verbatim>\<open>_convert_time_to_seconds\<close> and
  \<^verbatim>\<open>_convert_temperature_to_kelvin\<close> are defined in \<^verbatim>\<open>steps.py\<close>, which is not among
  the sources at hand. The general statements below hold for every \<open>env\<close>; the
  following one is used to run the constructor on concrete inputs. The spec gives the
  grammar only by its contract (a string gives a Step, or an error):
  \<open>example_string_step\<close> rejects the blank instruction and otherwise gives a Step that
  has no period and no temperature of its own. \<open>example_convert_time_to_seconds\<close>
  reads a number and one of the units of the class docstring (seconds, minutes,
  hours). \<open>example_convert_temperature_to_kelvin\<close> takes degrees Celsius to Kelvin and
  \<^verbatim>\<open>None\<close> to \<^verbatim>\<open>None\<close> (the docstring: the default \<^verbatim>\<open>None\<close> means that the ambient
  temperature is taken from the parameter set). Step objects are compared by identity.
\<close>

definition example_string_step :: "string \<Rightarrow> error + step" where
  "example_string_step s =
     (if split_ws s = [] then Inl (ValueError ''empty instruction'')
      else Inr \<lparr>operation = s, period = None, temperature = None\<rparr>)"

definition example_convert_time_to_seconds :: "string \<Rightarrow> error + rat option" where
  "example_convert_time_to_seconds s =
     (case split_ws s of
        [n, u] \<Rightarrow>
          (case float_decimal n of
             Inl e \<Rightarrow> Inl e
           | Inr v \<Rightarrow>
               if u \<in> set [''second'', ''seconds''] then Inr (Some v)
               else if u \<in> set [''minute'', ''minutes''] then Inr (Some (60 * v))
               else if u \<in> set [''hour'', ''hours''] then Inr (Some (3600 * v))
               else Inl (ValueError ''time units must be seconds, minutes or hours''))
      | _ \<Rightarrow> Inl (ValueError ''time must be a number and a unit''))"

definition example_convert_temperature_to_kelvin :: "rat option \<Rightarrow> error + rat option" where
  "example_convert_temperature_to_kelvin t = Inr (map_option (\<lambda>c. c + 27315 / 100) t)"

definition example_env :: "addr env" where
  "example_env =
     \<lparr>string_step = example_string_step,
      convert_time_to_seconds = example_convert_time_to_seconds,
      convert_temperature_to_kelvin = example_convert_temperature_to_kelvin,
      to_float = float_decimal,
      step_key = (\<lambda>a op. a)\<rparr>"

text \<open>
  A first run: three ungrouped instructions, the first and the last the same string,
  on the empty store, with the default arguments.
\<close>

definition rest_charge_rest :: "condition list" where
  "rest_charge_rest =
     [Single (Str ''Rest for 1 hour''), Single (Str ''Charge at 1 C until 4.2 V''),
      Single (Str ''Rest for 1 hour'')]"

definition rest_charge_rest_store :: heap where
  "rest_charge_rest_store =
     [\<lparr>operation = ''Rest for 1 hour'', period = Some 60, temperature = None\<rparr>,
      \<lparr>operation = ''Charge at 1 C until 4.2 V'', period = Some 60, temperature = None\<rparr>]"

definition rest_charge_rest_experiment :: Experiment where
  "rest_charge_rest_experiment =
     \<lparr>args = (rest_charge_rest, ''1 minute'', None, TermNone),
      operating_conditions_cycles =
        [[Str ''Rest for 1 hour''], [Str ''Charge at 1 C until 4.2 V''],
         [Str ''Rest for 1 hour'']],
      cycle_lengths = [1, 1, 1],
      unique_steps = [0, 1],
      operating_conditions_steps = [0, 1, 0],
      termination_string = TermNone,
      experiment_termination = [],
      experiment_period = Some 60,
      experiment_temperature = None\<rparr>"

text \<open>
  A second run, on a store that holds two pre-built Step objects: the Step at address
  0 has a period and a temperature of its own, the Step at address 1 has neither.
  The first cycle is a tuple; the experiment-wide period is 30 seconds and the
  temperature 25 degrees Celsius. \<open>mixed_store_processed\<close> is the store when the loop
  over the unique steps starts, \<open>mixed_store_after\<close> the store when the constructor
  returns.
\<close>

definition mixed_store :: heap where
  "mixed_store =
     [\<lparr>operation = ''current 1 A for 1 hour'', period = Some 10, temperature = Some (6263 / 20)\<rparr>,
      \<lparr>operation = ''voltage 4.2 V until 50 mA'', period = None, temperature = None\<rparr>]"

definition mixed_conditions :: "condition list" where
  "mixed_conditions =
     [Tuple [Str ''Rest for 1 hour'', StepObj 0], Single (StepObj 1),
      Single (Str ''Rest for 1 hour'')]"

definition mixed_store_processed :: heap where
  "mixed_store_processed =
     mixed_store @ [\<lparr>operation = ''Rest for 1 hour'', period = None, temperature = None\<rparr>]"

definition mixed_store_after :: heap where
  "mixed_store_after =
     [\<lparr>operation = ''current 1 A for 1 hour'', period = Some 10, temperature = Some (6263 / 20)\<rparr>,
      \<lparr>operation = ''voltage 4.2 V until 50 mA'', period = Some 30,
       temperature = Some (5963 / 20)\<rparr>,
      \<lparr>operation = ''Rest for 1 hour'', period = Some 30, temperature = Some (5963 / 20)\<rparr>]"

definition mixed_experiment :: Experiment where
  "mixed_experiment =
     \<lparr>args = (mixed_conditions, ''30 seconds'', Some 25, TermStr ''2.5 V''),
      operating_conditions_cycles =
        [[Str ''Rest for 1 hour'', StepObj 0], [StepObj 1], [Str ''Rest for 1 hour'']],
      cycle_lengths = [2, 1, 1],
      unique_steps = [2, 0, 1],
      operating_conditions_steps = [2, 0, 1, 2],
      termination_string = TermStr ''2.5 V'',
      experiment_termination = [(''voltage'', (5 / 2, ''V''))],
      experiment_period = Some 30,
      experiment_temperature = Some (5963 / 20)\<rparr>"





text \<open>The cycles of the tag search example of the spec.\<close>

definition tagged_cycles :: "instruction list list" where
  "tagged_cycles =
     [[Str ''Charge at 1C for 1 hour [tag1]''], [Str ''Rest for 10 minutes [tag2]''],
      [Str ''Hold at 4.2V until C/50 [tag1,tag2]'']]"

section \<open>Properties\<close>

subsection \<open>Strings\<close>

lemma endswith_iff: "endswith s suf \<longleftrightarrow> (\<exists>pre. s = pre @ suf)"
proof
  assume "endswith s suf"
  then have "s = take (length s - length suf) s @ suf"
    unfolding endswith_def by (metis append_take_drop_id)
  then show "\<exists>pre. s = pre @ suf" ..
next
  assume "\<exists>pre. s = pre @ suf"
  then show "endswith s suf" by (auto simp: endswith_def)
qed

lemma endswith_shorter:
  assumes "endswith s suf" and "endswith s suf'" and "length suf' \<le> length suf"
  shows "endswith suf suf'"
proof -
  from assms(1) obtain p where p: "s = p @ suf" by (auto simp: endswith_iff)
  have "length s - length suf' = length p + (length suf - length suf')"
    using assms(3) by (simp add: p)
  then have "drop (length s - length suf') s = drop (length suf - length suf') suf"
    by (simp add: p)
  with assms(2,3) show ?thesis by (simp add: endswith_def)
qed

subsection \<open>The termination parser\<close>

lemmas read_termination_defs =
  read_termination_def read_termination_entry_def split_ws_def is_space_def
  index_last_def index_first_def endswith_def startswith_def str_split_def str_replace_def
  float_decimal_def strip_def is_float_space_def digit_of_def Let_def

text \<open>
  C5. The termination parser on the literal inputs of the spec:
  \<^verbatim>\<open>"80% capacity"\<close> gives \<^verbatim>\<open>{"capacity": (80.0, "%")}\<close>, \<^verbatim>\<open>"4Ah capacity"\<close> gives
  \<^verbatim>\<open>{"capacity": (4.0, "Ah")}\<close>, \<^verbatim>\<open>"2.5 V"\<close> gives \<^verbatim>\<open>{"voltage": (2.5, "V")}\<close>, the
  list of the first and the third gives both entries, \<^verbatim>\<open>"80 capacity"\<close> raises the
  capacity-format error, \<^verbatim>\<open>"abc"\<close> raises the error that only capacity or voltage
  can be given, and \<^verbatim>\<open>None\<close> gives the empty mapping.
\<close>

theorem read_termination_literal_cases:
  "read_termination float_decimal (TermStr ''80% capacity'') = Inr [(''capacity'', (80, ''%''))] \<and>
   read_termination float_decimal (TermStr ''4Ah capacity'') = Inr [(''capacity'', (4, ''Ah''))] \<and>
   read_termination float_decimal (TermStr ''2.5 V'') = Inr [(''voltage'', (5 / 2, ''V''))] \<and>
   read_termination float_decimal (TermList [''80% capacity'', ''2.5 V''])
     = Inr [(''capacity'', (80, ''%'')), (''voltage'', (5 / 2, ''V''))] \<and>
   read_termination float_decimal (TermStr ''80 capacity'') = Inl capacity_format_error \<and>
   read_termination float_decimal (TermStr ''abc'') = Inl termination_kind_error \<and>
   read_termination float_decimal TermNone = Inr []"
proof (intro conjI)
  show "read_termination float_decimal (TermStr ''80% capacity'') = Inr [(''capacity'', (80, ''%''))]"
    by (simp add: read_termination_defs)
  show "read_termination float_decimal (TermStr ''4Ah capacity'') = Inr [(''capacity'', (4, ''Ah''))]"
    by (simp add: read_termination_defs)
  show "read_termination float_decimal (TermStr ''2.5 V'') = Inr [(''voltage'', (5 / 2, ''V''))]"
    by (simp add: read_termination_defs)
  show "read_termination float_decimal (TermList [''80% capacity'', ''2.5 V''])
     = Inr [(''capacity'', (80, ''%'')), (''voltage'', (5 / 2, ''V''))]"
    by (simp add: read_termination_defs)
  show "read_termination float_decimal (TermStr ''80 capacity'') = Inl capacity_format_error"
    by (simp add: read_termination_defs)
  show "read_termination float_decimal (TermStr ''abc'') = Inl termination_kind_error"
    by (simp add: read_termination_defs)
  show "read_termination float_decimal TermNone = Inr []"
    by (simp add: read_termination_defs)
qed

lemma capacity_with_A_dot_h:
  assumes "split_ws trm \<noteq> []" and "last (split_ws trm) = ''capacity''"
    and "endswith (concat (butlast (split_ws trm))) ''A.h''"
  shows "read_termination_entry float_of d trm = Inl capacity_format_error"
proof -
  define e where "e = concat (butlast (split_ws trm))"
  have n1: "\<not> endswith ''A.h'' ''%''" and n2: "\<not> endswith ''A.h'' ''Ah''"
    by (simp_all add: endswith_def)
  have e3: "endswith e ''A.h''" using assms(3) by (simp add: e_def)
  have "\<not> endswith e ''%''"
  proof
    assume "endswith e ''%''"
    with e3 have "endswith ''A.h'' ''%''" by (rule endswith_shorter) simp
    with n1 show False ..
  qed
  moreover have "\<not> endswith e ''Ah''"
  proof
    assume "endswith e ''Ah''"
    with e3 have "endswith ''A.h'' ''Ah''" by (rule endswith_shorter) simp
    with n2 show False ..
  qed
  ultimately show ?thesis
    using assms(1,2) unfolding read_termination_entry_def index_last_def Let_def e_def
    by simp
qed

text \<open>
  C10. The termination string \<^verbatim>\<open>"4A.h capacity"\<close> raises the capacity-format error,
  whose message names \<^verbatim>\<open>'4A.h'\<close> as an accepted form; and so does, for any conversion
  \<^verbatim>\<open>float\<close>, every termination string whose last token is \<^verbatim>\<open>capacity\<close> and whose
  magnitude (the tokens before it, joined) ends with \<^verbatim>\<open>A.h\<close>: the replacement of
  \<^verbatim>\<open>A.h\<close> by \<^verbatim>\<open>Ah\<close> does not reach the tests on the suffix.
\<close>

theorem read_termination_A_dot_h_rejected:
  "read_termination float_of (TermStr ''4A.h capacity'') = Inl capacity_format_error \<and>
   (\<forall>trm. split_ws trm \<noteq> [] \<and> last (split_ws trm) = ''capacity'' \<and>
          endswith (concat (butlast (split_ws trm))) ''A.h''
          \<longrightarrow> read_termination float_of (TermStr trm) = Inl capacity_format_error)"
proof
  show "read_termination float_of (TermStr ''4A.h capacity'') = Inl capacity_format_error"
    by (simp add: read_termination_defs)
next
  show "\<forall>trm. split_ws trm \<noteq> [] \<and> last (split_ws trm) = ''capacity'' \<and>
          endswith (concat (butlast (split_ws trm))) ''A.h''
          \<longrightarrow> read_termination float_of (TermStr trm) = Inl capacity_format_error"
    by (simp add: read_termination_def capacity_with_A_dot_h)
qed

theorem read_termination_A_dot_h_rejected_witness:
  "split_ws ''12.5 A.h capacity'' \<noteq> [] \<and> last (split_ws ''12.5 A.h capacity'') = ''capacity'' \<and>
   endswith (concat (butlast (split_ws ''12.5 A.h capacity''))) ''A.h'' \<and>
   read_termination float_decimal (TermStr ''12.5 A.h capacity'') = Inl capacity_format_error"
proof -
  have h: "split_ws ''12.5 A.h capacity'' \<noteq> [] \<and>
           last (split_ws ''12.5 A.h capacity'') = ''capacity'' \<and>
           endswith (concat (butlast (split_ws ''12.5 A.h capacity''))) ''A.h''"
    by (simp add: split_ws_def is_space_def endswith_def)
  from read_termination_A_dot_h_rejected [of float_decimal] h
  have "read_termination float_decimal (TermStr ''12.5 A.h capacity'') = Inl capacity_format_error"
    by blast
  with h show ?thesis by blast
qed

subsection \<open>Sets, dictionaries and comprehensions\<close>

lemma set_set_add: "set (set_add eq S x) \<subseteq> insert x (set S)"
  by (auto simp: set_add_def)

lemma set_foldl_set_add_subset:
  "set (foldl (set_add eq) S xs) \<subseteq> set S \<union> set xs"
proof (induction xs arbitrary: S)
  case Nil
  then show ?case by simp
next
  case (Cons z zs)
  have "set (foldl (set_add eq) (set_add eq S z) zs) \<subseteq> set (set_add eq S z) \<union> set zs"
    by (rule Cons.IH)
  with set_set_add [of eq S z] show ?case by auto
qed

lemma py_set_subset: "set (py_set eq xs) \<subseteq> set xs"
  using set_foldl_set_add_subset [of eq "[]" xs] by (simp add: py_set_def)

lemma list_all_py_set: "list_all P xs \<Longrightarrow> list_all P (py_set eq xs)"
  using py_set_subset [of eq xs] by (auto simp: list_all_iff)






lemma dict_get_in_values: "dict_get eq d k = Inr v \<Longrightarrow> v \<in> snd ` set d"
  by (induction d) (auto split: if_splits)

lemma dict_get_entry: "dict_get eq d k = Inr v \<Longrightarrow> \<exists>k'. (k', v) \<in> set d \<and> eq k' k"
  by (induction d) (auto split: if_splits)

lemma dict_set_entries:
  "(k', v') \<in> set (dict_set eq d k v) \<Longrightarrow>
     (k', v') \<in> set d \<or> (v' = v \<and> (k' = k \<or> (k' \<in> fst ` set d \<and> eq k' k)))"
  by (induction d) (auto split: if_splits simp: image_iff)




lemma map_result_Inr:
  "map_result f xs = Inr ys \<Longrightarrow>
     length ys = length xs \<and> (\<forall>i < length xs. f (xs ! i) = Inr (ys ! i))"
proof (induction xs arbitrary: ys)
  case Nil
  then show ?case by simp
next
  case (Cons x xs)
  then show ?case
    by (auto split: sum.splits simp: nth_Cons split: nat.splits)
qed

lemma map_result_set:
  "map_result f xs = Inr ys \<Longrightarrow> y \<in> set ys \<Longrightarrow> \<exists>x \<in> set xs. f x = Inr y"
proof -
  assume r: "map_result f xs = Inr ys" and "y \<in> set ys"
  then obtain i where i: "i < length ys" "ys ! i = y" by (auto simp: in_set_conv_nth)
  from map_result_Inr [OF r] i have "i < length xs" "f (xs ! i) = Inr y" by auto
  then show ?thesis using nth_mem by blast
qed


subsection \<open>The default injection\<close>

lemma inject_step_simps [simp]:
  "operation (inject_step p t st) = operation st"
  "period (inject_step p t st) = (if period st = None then p else period st)"
  "temperature (inject_step p t st) = (if temperature st = None then t else temperature st)"
  by (auto simp: inject_step_def Let_def)

lemma inject_step_idem: "inject_step p t (inject_step p t st) = inject_step p t st"
  by (simp add: inject_step_def Let_def)

lemma length_inject_defaults [simp]: "length (inject_defaults p t h us) = length h"
  by (induction us arbitrary: h) simp_all

lemma inject_defaults_nth:
  "a < length h \<Longrightarrow>
     inject_defaults p t h us ! a = (if a \<in> set us then inject_step p t (h ! a) else h ! a)"
proof (induction us arbitrary: h)
  case Nil
  then show ?case by simp
next
  case (Cons b rest)
  let ?h2 = "h[b := inject_step p t (h ! b)]"
  have len: "a < length ?h2" using Cons.prems by simp
  have IH: "inject_defaults p t ?h2 rest ! a =
              (if a \<in> set rest then inject_step p t (?h2 ! a) else ?h2 ! a)"
    using Cons.IH [OF len] .
  show ?case
  proof (cases "a = b")
    case True
    with Cons.prems have "?h2 ! a = inject_step p t (h ! a)" by simp
    with IH True show ?thesis by (simp add: inject_step_idem)
  next
    case False
    then have "?h2 ! a = h ! a" by simp
    with IH False show ?thesis by simp
  qed
qed

lemma inject_defaults_idem:
  "inject_defaults p t (inject_defaults p t h us) us = inject_defaults p t h us"
  by (rule nth_equalityI) (simp_all add: inject_defaults_nth inject_step_idem)

lemma inject_defaults_operation:
  "operation (inject_defaults p t h us ! b) = operation (h ! b)"
proof (induction us arbitrary: h)
  case Nil
  then show ?case by simp
next
  case (Cons a rest)
  let ?h2 = "h[a := inject_step p t (h ! a)]"
  have "operation (?h2 ! b) = operation (h ! b)"
  proof (cases "a < length h")
    case True
    then show ?thesis by (cases "b = a") simp_all
  next
    case False
    then have "?h2 = h" by (simp add: list_update_beyond)
    then show ?thesis by simp
  qed
  with Cons.IH [of ?h2] show ?case by simp
qed

lemma step_eq_inject_defaults [simp]:
  "step_eq key (inject_defaults p t h us) a b = step_eq key h a b"
  by (simp add: step_eq_def inject_defaults_operation)

lemma mixed_injection:
  "inject_defaults (Some 30) (Some (5963 / 20)) mixed_store_processed [2, 0, 1] = mixed_store_after"
  by (simp add: mixed_store_processed_def mixed_store_def mixed_store_after_def inject_step_def)

subsection \<open>Equality of instructions and steps\<close>

lemma step_eq_refl [simp]: "step_eq key h a a"
  by (simp add: step_eq_def)


lemma instruction_eq_refl [simp]: "instruction_eq key h x x"
  by (cases x) (simp_all add: step_eq_def)

lemma instruction_eq_Str_right [simp]: "instruction_eq key h x (Str s) \<longleftrightarrow> x = Str s"
  by (cases x) auto

lemma instruction_eq_Str_left [simp]: "instruction_eq key h (Str s) x \<longleftrightarrow> x = Str s"
  by (cases x) auto

lemma step_eq_append:
  "a < length h \<Longrightarrow> b < length h \<Longrightarrow> step_eq key (h @ new) a b = step_eq key h a b"
  by (simp add: step_eq_def nth_append)

subsection \<open>Filling \<^verbatim>\<open>processed_steps\<close>\<close>

lemma entry_ok_append:
  "n \<le> length h \<Longrightarrow> entry_ok E n h e \<Longrightarrow> entry_ok E n (h @ new) e"
  by (cases "(E, n, h, e)" rule: entry_ok.cases) (auto simp: nth_append step_eq_append)

lemma str_entry_ok_append:
  "str_entry_ok E n h e \<Longrightarrow> str_entry_ok E n (h @ new) e"
  by (cases "(E, n, h, e)" rule: str_entry_ok.cases) (auto simp: nth_append)

lemma process_steps_heap:
  "process_steps E h d xs = Inr (h1, d1) \<Longrightarrow>
     \<exists>new. h1 = h @ new \<and> (\<forall>st \<in> set new. \<exists>s. Str s \<in> set xs \<and> string_step E s = Inr st)"
proof (induction E h d xs rule: process_steps.induct)
  case (1 E h d)
  then show ?case by simp
next
  case (2 E h d s rest)
  then obtain st where st: "string_step E s = Inr st" by (auto split: sum.splits)
  with "2.prems" have "process_steps E (h @ [st])
      (dict_set (instruction_eq (step_key E) (h @ [st])) d (Str s) (length h)) rest = Inr (h1, d1)"
    by simp
  from "2.IH" [OF st this] obtain new where
    new: "h1 = (h @ [st]) @ new" "\<forall>x \<in> set new. \<exists>s. Str s \<in> set rest \<and> string_step E s = Inr x"
    by blast
  have "h1 = h @ (st # new)" using new(1) by simp
  moreover have "\<forall>x \<in> set (st # new). \<exists>s'. Str s' \<in> set (Str s # rest) \<and> string_step E s' = Inr x"
    using new(2) st by auto
  ultimately show ?case by blast
next
  case (3 E h d a rest)
  then show ?case by auto
qed

lemma process_steps_entries:
  "process_steps E h d xs = Inr (h1, d1) \<Longrightarrow> n \<le> length h \<Longrightarrow>
   list_all (valid_instruction n) xs \<Longrightarrow> (\<forall>e \<in> set d. entry_ok E n h e) \<Longrightarrow>
   (\<forall>e \<in> set d1. entry_ok E n h1 e)"
proof (induction E h d xs rule: process_steps.induct)
  case (1 E h d)
  then show ?case by simp
next
  case (2 E h d s rest)
  then obtain st where st: "string_step E s = Inr st" by (auto split: sum.splits)
  let ?h = "h @ [st]"
  let ?d = "dict_set (instruction_eq (step_key E) ?h) d (Str s) (length h)"
  from "2.prems"(1) st have run: "process_steps E ?h ?d rest = Inr (h1, d1)" by simp
  have "\<forall>e \<in> set ?d. entry_ok E n ?h e"
  proof
    fix e assume e: "e \<in> set ?d"
    obtain k v where kv: "e = (k, v)" by (cases e)
    from e kv dict_set_entries [of k v "instruction_eq (step_key E) ?h" d "Str s" "length h"]
    consider "(k, v) \<in> set d" | "v = length h" "k = Str s" by auto
    then show "entry_ok E n ?h e"
    proof cases
      case 1
      with "2.prems"(4) have "entry_ok E n h (k, v)" by blast
      with "2.prems"(2) show ?thesis unfolding kv by (rule entry_ok_append)
    next
      case 2
      with "2.prems"(2) st show ?thesis by (simp add: kv)
    qed
  qed
  moreover have "n \<le> length ?h" using "2.prems"(2) by simp
  moreover have "list_all (valid_instruction n) rest" using "2.prems"(3) by simp
  ultimately show ?case using "2.IH" [OF st run] by blast
next
  case (3 E h d a rest)
  let ?d = "dict_set (instruction_eq (step_key E) h) d (StepObj a) a"
  from "3.prems"(1) have run: "process_steps E h ?d rest = Inr (h1, d1)" by simp
  have a: "a < n" using "3.prems"(3) by simp
  have "\<forall>e \<in> set ?d. entry_ok E n h e"
  proof
    fix e assume e: "e \<in> set ?d"
    obtain k v where kv: "e = (k, v)" by (cases e)
    from e kv dict_set_entries [of k v "instruction_eq (step_key E) h" d "StepObj a" a]
    consider "(k, v) \<in> set d" | "v = a" "k = StepObj a"
      | "v = a" "k \<in> fst ` set d" "instruction_eq (step_key E) h k (StepObj a)" by auto
    then show "entry_ok E n h e"
    proof cases
      case 1
      with "3.prems"(4) show ?thesis unfolding kv by blast
    next
      case 2
      with a show ?thesis by (simp add: kv step_eq_def)
    next
      case 3
      from 3(3) obtain b where b: "k = StepObj b" "step_eq (step_key E) h b a"
        by (cases k) auto
      from 3(2) obtain w where "(k, w) \<in> set d" by auto
      with "3.prems"(4) have "entry_ok E n h (k, w)" by blast
      with b have "b < n" by simp
      with a b 3(1) show ?thesis by (simp add: kv step_eq_def)
    qed
  qed
  moreover have "list_all (valid_instruction n) rest" using "3.prems"(3) by simp
  ultimately show ?case using "3.IH" [OF run "3.prems"(2)] by blast
qed

lemma process_steps_str_entries:
  "process_steps E h d xs = Inr (h1, d1) \<Longrightarrow> n \<le> length h \<Longrightarrow>
   (\<forall>e \<in> set d. str_entry_ok E n h e) \<Longrightarrow> (\<forall>e \<in> set d1. str_entry_ok E n h1 e)"
proof (induction E h d xs rule: process_steps.induct)
  case (1 E h d)
  then show ?case by simp
next
  case (2 E h d s rest)
  then obtain st where st: "string_step E s = Inr st" by (auto split: sum.splits)
  let ?h = "h @ [st]"
  let ?d = "dict_set (instruction_eq (step_key E) ?h) d (Str s) (length h)"
  from "2.prems"(1) st have run: "process_steps E ?h ?d rest = Inr (h1, d1)" by simp
  have "\<forall>e \<in> set ?d. str_entry_ok E n ?h e"
  proof
    fix e assume e: "e \<in> set ?d"
    obtain k v where kv: "e = (k, v)" by (cases e)
    from e kv dict_set_entries [of k v "instruction_eq (step_key E) ?h" d "Str s" "length h"]
    consider "(k, v) \<in> set d" | "v = length h" "k = Str s" by auto
    then show "str_entry_ok E n ?h e"
    proof cases
      case 1
      with "2.prems"(3) have "str_entry_ok E n h (k, v)" by blast
      then show ?thesis unfolding kv by (rule str_entry_ok_append)
    next
      case 2
      with "2.prems"(2) st show ?thesis by (simp add: kv)
    qed
  qed
  moreover have "n \<le> length ?h" using "2.prems"(2) by simp
  ultimately show ?case using "2.IH" [OF st run] by blast
next
  case (3 E h d a rest)
  let ?d = "dict_set (instruction_eq (step_key E) h) d (StepObj a) a"
  from "3.prems"(1) have run: "process_steps E h ?d rest = Inr (h1, d1)" by simp
  have "\<forall>e \<in> set ?d. str_entry_ok E n h e"
  proof
    fix e assume e: "e \<in> set ?d"
    obtain k v where kv: "e = (k, v)" by (cases e)
    from e kv dict_set_entries [of k v "instruction_eq (step_key E) h" d "StepObj a" a]
    consider "(k, v) \<in> set d" | "k = StepObj a"
      | "instruction_eq (step_key E) h k (StepObj a)" by auto
    then show "str_entry_ok E n h e"
    proof cases
      case 1
      with "3.prems"(3) show ?thesis unfolding kv by blast
    next
      case 2
      then show ?thesis by (simp add: kv)
    next
      case 3
      then show ?thesis by (cases k) (simp_all add: kv)
    qed
  qed
  then show ?case using "3.IH" [OF run "3.prems"(2)] by blast
qed

lemma process_steps_keys:
  "process_steps E h d xs = Inr (h1, d1) \<Longrightarrow> fst ` set d1 \<subseteq> fst ` set d \<union> set xs"
proof (induction E h d xs rule: process_steps.induct)
  case (1 E h d)
  then show ?case by simp
next
  case (2 E h d s rest)
  then obtain st where st: "string_step E s = Inr st" by (auto split: sum.splits)
  let ?h = "h @ [st]"
  let ?d = "dict_set (instruction_eq (step_key E) ?h) d (Str s) (length h)"
  from "2.prems"(1) st have run: "process_steps E ?h ?d rest = Inr (h1, d1)" by simp
  have "fst ` set ?d \<subseteq> insert (Str s) (fst ` set d)"
    using dict_set_entries [of _ _ "instruction_eq (step_key E) ?h" d "Str s" "length h"]
    by (auto simp: image_iff) fastforce
  with "2.IH" [OF st run] show ?case by auto
next
  case (3 E h d a rest)
  let ?d = "dict_set (instruction_eq (step_key E) h) d (StepObj a) a"
  from "3.prems"(1) have run: "process_steps E h ?d rest = Inr (h1, d1)" by simp
  have "fst ` set ?d \<subseteq> insert (StepObj a) (fst ` set d)"
    using dict_set_entries [of _ _ "instruction_eq (step_key E) h" d "StepObj a" a]
    by (auto simp: image_iff) fastforce
  with "3.IH" [OF run] show ?case by auto
qed



subsection \<open>The constructor\<close>

lemmas example_defs =
  example_env_def example_string_step_def example_convert_time_to_seconds_def
  example_convert_temperature_to_kelvin_def

lemmas init_eval =
  Experiment_init_def Let_def as_cycle_def py_set_def set_add_def step_eq_def
  inject_step_def read_termination_defs example_defs

lemma Experiment_init_Inr:
  assumes "Experiment_init E h oc pa ta tm dc cc = Inr (h', e)"
  shows "\<exists>h1 d1.
    process_steps E h [] (py_set (instruction_eq (step_key E) h) (raw_instructions oc)) = Inr (h1, d1) \<and>
    map_result (dict_get (instruction_eq (step_key E) h1) d1) (raw_instructions oc)
      = Inr (operating_conditions_steps e) \<and>
    unique_steps e = py_set (step_eq (step_key E) h1) (map snd d1) \<and>
    h' = inject_defaults (experiment_period e) (experiment_temperature e) h1 (unique_steps e) \<and>
    read_termination (to_float E) tm = Inr (experiment_termination e) \<and>
    convert_time_to_seconds E pa = Inr (experiment_period e) \<and>
    convert_temperature_to_kelvin E ta = Inr (experiment_temperature e)"
    and "operating_conditions_cycles e = map as_cycle oc"
    and "cycle_lengths e = map length (map as_cycle oc)"
    and "args e = (oc, pa, ta, tm)"
    and "termination_string e = tm"
    and "dc = None" and "cc = None"
  using assms unfolding Experiment_init_def raw_instructions_def Let_def
  by (auto split: if_splits sum.splits prod.splits)



lemma Experiment_init_store:
  assumes init: "Experiment_init E h oc pa ta tm dc cc = Inr (h', e)"
    and valid: "valid_conditions h oc"
  shows "\<exists>h1 d1 new.
    h1 = h @ new \<and>
    (\<forall>st \<in> set new. \<exists>s. Str s \<in> set (raw_instructions oc) \<and> string_step E s = Inr st) \<and>
    (\<forall>en \<in> set d1. entry_ok E (length h) h1 en) \<and>
    fst ` set d1 \<subseteq> set (raw_instructions oc) \<and>
    map_result (dict_get (instruction_eq (step_key E) h1) d1) (raw_instructions oc)
      = Inr (operating_conditions_steps e) \<and>
    unique_steps e = py_set (step_eq (step_key E) h1) (map snd d1) \<and>
    h' = inject_defaults (experiment_period e) (experiment_temperature e) h1 (unique_steps e)"
proof -
  let ?raw = "raw_instructions oc"
  let ?xs = "py_set (instruction_eq (step_key E) h) ?raw"
  from Experiment_init_Inr(1) [OF init] obtain h1 d1 where
    run: "process_steps E h [] ?xs = Inr (h1, d1)"
    and ops: "map_result (dict_get (instruction_eq (step_key E) h1) d1) ?raw
                = Inr (operating_conditions_steps e)"
    and uniq: "unique_steps e = py_set (step_eq (step_key E) h1) (map snd d1)"
    and h': "h' = inject_defaults (experiment_period e) (experiment_temperature e) h1 (unique_steps e)"
    by blast
  have sub: "set ?xs \<subseteq> set ?raw" by (rule py_set_subset)
  from process_steps_heap [OF run] obtain new where
    new: "h1 = h @ new" "\<forall>st \<in> set new. \<exists>s. Str s \<in> set ?xs \<and> string_step E s = Inr st"
    by blast
  from new(2) sub have new2: "\<forall>st \<in> set new. \<exists>s. Str s \<in> set ?raw \<and> string_step E s = Inr st"
    by blast
  have "list_all (valid_instruction (length h)) ?xs"
    using valid unfolding valid_conditions_def by (rule list_all_py_set)
  then have ok: "\<forall>en \<in> set d1. entry_ok E (length h) h1 en"
    using process_steps_entries [OF run, of "length h"] by simp
  from process_steps_keys [OF run] sub have keys: "fst ` set d1 \<subseteq> set ?raw" by auto
  from new(1) new2 ok keys ops uniq h' show ?thesis by blast
qed

lemma Experiment_init_addresses:
  assumes init: "Experiment_init E h oc pa ta tm dc cc = Inr (h', e)"
    and valid: "valid_conditions h oc"
    and a: "a \<in> set (operating_conditions_steps e) \<union> set (unique_steps e)"
  shows "a < length h'" and "strings_only oc \<Longrightarrow> length h \<le> a"
proof -
  let ?raw = "raw_instructions oc"
  from Experiment_init_store [OF init valid] obtain h1 d1 new where
    h1: "h1 = h @ new"
    and ok: "\<forall>en \<in> set d1. entry_ok E (length h) h1 en"
    and keys: "fst ` set d1 \<subseteq> set ?raw"
    and ops: "map_result (dict_get (instruction_eq (step_key E) h1) d1) ?raw
                = Inr (operating_conditions_steps e)"
    and uniq: "unique_steps e = py_set (step_eq (step_key E) h1) (map snd d1)"
    and h': "h' = inject_defaults (experiment_period e) (experiment_temperature e) h1 (unique_steps e)"
    by blast
  have "a \<in> snd ` set d1"
  proof (cases "a \<in> set (unique_steps e)")
    case True
    with uniq py_set_subset [of "step_eq (step_key E) h1" "map snd d1"] show ?thesis by auto
  next
    case False
    with a have "a \<in> set (operating_conditions_steps e)" by simp
    from map_result_set [OF ops this] show ?thesis using dict_get_in_values by fastforce
  qed
  then obtain k where k: "(k, a) \<in> set d1" by auto
  with ok have eok: "entry_ok E (length h) h1 (k, a)" by blast
  then have "a < length h1" using h1 by (cases k) auto
  then show "a < length h'" by (simp add: h')
  show "length h \<le> a" if "strings_only oc"
  proof -
    from k keys have "k \<in> set ?raw" by force
    with that have "is_Str k" by (simp add: strings_only_def list_all_iff)
    then obtain s where "k = Str s" by (cases k) auto
    with eok show ?thesis by simp
  qed
qed

text \<open>
  The constructor ends with the loop over the unique steps, so running that loop once
  more on a constructed experiment leaves the store as it is.
\<close>

lemma Experiment_init_rerun_injection:
  assumes "Experiment_init E h oc pa ta tm dc cc = Inr (h', e)"
  shows "inject_defaults (experiment_period e) (experiment_temperature e) h' (unique_steps e) = h'"
  using Experiment_init_Inr(1) [OF assms] by (auto simp: inject_defaults_idem)

lemma rest_charge_rest_run:
  "Experiment_init example_env [] rest_charge_rest ''1 minute'' None TermNone
     (None :: unit option) (None :: unit option)
   = Inr (rest_charge_rest_store, rest_charge_rest_experiment)"
  by (simp add: init_eval rest_charge_rest_def rest_charge_rest_store_def
      rest_charge_rest_experiment_def)

lemma mixed_run:
  "Experiment_init example_env mixed_store mixed_conditions ''30 seconds'' (Some 25)
     (TermStr ''2.5 V'') (None :: unit option) (None :: unit option)
   = Inr (mixed_store_after, mixed_experiment)"
  by (simp add: init_eval mixed_store_def mixed_conditions_def mixed_store_after_def
      mixed_experiment_def)

lemma mixed_store_before_injection:
  "store_before_injection example_env mixed_store mixed_conditions = mixed_store_processed"
  by (simp add: store_before_injection_def raw_instructions_def as_cycle_def py_set_def
      set_add_def step_eq_def example_defs split_ws_def is_space_def mixed_store_def
      mixed_conditions_def mixed_store_processed_def)

text \<open>
  C7. The constructor, for every Step of \<^verbatim>\<open>unique_steps\<close>. Let the store before the
  injection be the store the constructor was entered with, followed by the Steps
  created from the strings, and let the experiment-wide defaults be the converted
  period and temperature arguments. When the constructor has returned, the period of
  the Step is the experiment-wide period if the Step had none before the injection,
  and the period it had otherwise, whatever the default is; the same holds,
  independently, for the temperature; the operation of the Step and every object
  that is not a unique step are as before; and running the injection once more over
  the unique steps, with the same defaults, changes nothing.
\<close>

theorem constructor_default_injection:
  assumes "Experiment_init E h operating_conditions period_arg temperature_arg termination_arg
             drive_cycles cccv_handling = Inr (h', e)"
    and "valid_conditions h operating_conditions"
  shows "convert_time_to_seconds E period_arg = Inr (experiment_period e) \<and>
         convert_temperature_to_kelvin E temperature_arg = Inr (experiment_temperature e) \<and>
         length h' = length (store_before_injection E h operating_conditions) \<and>
         take (length h) (store_before_injection E h operating_conditions) = h \<and>
         (\<forall>a \<in> set (unique_steps e).
            a < length h' \<and>
            period (h' ! a)
              = (if period (store_before_injection E h operating_conditions ! a) = None
                 then experiment_period e
                 else period (store_before_injection E h operating_conditions ! a)) \<and>
            temperature (h' ! a)
              = (if temperature (store_before_injection E h operating_conditions ! a) = None
                 then experiment_temperature e
                 else temperature (store_before_injection E h operating_conditions ! a)) \<and>
            operation (h' ! a)
              = operation (store_before_injection E h operating_conditions ! a)) \<and>
         (\<forall>a. a < length h' \<and> a \<notin> set (unique_steps e) \<longrightarrow>
            h' ! a = store_before_injection E h operating_conditions ! a) \<and>
         inject_defaults (experiment_period e) (experiment_temperature e) h' (unique_steps e) = h'"
proof -
  let ?raw = "raw_instructions operating_conditions"
  let ?xs = "py_set (instruction_eq (step_key E) h) ?raw"
  let ?p = "experiment_period e" and ?t = "experiment_temperature e"
  let ?h1 = "store_before_injection E h operating_conditions"
  from Experiment_init_Inr(1) [OF assms(1)] obtain h1 d1 where
    run: "process_steps E h [] ?xs = Inr (h1, d1)"
    and uniq: "unique_steps e = py_set (step_eq (step_key E) h1) (map snd d1)"
    and h': "h' = inject_defaults ?p ?t h1 (unique_steps e)"
    and p: "convert_time_to_seconds E period_arg = Inr ?p"
    and t: "convert_temperature_to_kelvin E temperature_arg = Inr ?t"
    by blast
  have h1: "?h1 = h1" by (simp add: store_before_injection_def run)
  from process_steps_heap [OF run] obtain new where new: "h1 = h @ new" by blast
  have len: "length h' = length ?h1" by (simp add: h' h1)
  have pre: "take (length h) ?h1 = h" by (simp add: h1 new)
  have lt: "\<And>a. a \<in> set (unique_steps e) \<Longrightarrow> a < length h'"
    using Experiment_init_addresses(1) [OF assms] by blast
  have steps: "\<forall>a \<in> set (unique_steps e).
            a < length h' \<and>
            period (h' ! a) = (if period (?h1 ! a) = None then ?p else period (?h1 ! a)) \<and>
            temperature (h' ! a)
              = (if temperature (?h1 ! a) = None then ?t else temperature (?h1 ! a)) \<and>
            operation (h' ! a) = operation (?h1 ! a)"
  proof
    fix a assume a: "a \<in> set (unique_steps e)"
    from lt [OF a] have a1: "a < length h1" by (simp add: h')
    have "h' ! a = inject_step ?p ?t (h1 ! a)"
      using a a1 by (simp add: h' inject_defaults_nth)
    with lt [OF a] show "a < length h' \<and>
            period (h' ! a) = (if period (?h1 ! a) = None then ?p else period (?h1 ! a)) \<and>
            temperature (h' ! a)
              = (if temperature (?h1 ! a) = None then ?t else temperature (?h1 ! a)) \<and>
            operation (h' ! a) = operation (?h1 ! a)"
      by (simp add: h1)
  qed
  have others: "\<forall>a. a < length h' \<and> a \<notin> set (unique_steps e) \<longrightarrow> h' ! a = ?h1 ! a"
    by (simp add: h1 h' inject_defaults_nth)
  have again: "inject_defaults ?p ?t h' (unique_steps e) = h'"
    using assms(1) by (rule Experiment_init_rerun_injection)
  from p t len pre steps others again show ?thesis by blast
qed

theorem constructor_default_injection_witness:
  "Experiment_init example_env mixed_store mixed_conditions ''30 seconds'' (Some 25)
     (TermStr ''2.5 V'') (None :: unit option) (None :: unit option)
   = Inr (mixed_store_after, mixed_experiment) \<and>
   valid_conditions mixed_store mixed_conditions \<and>
   store_before_injection example_env mixed_store mixed_conditions = mixed_store_processed \<and>
   experiment_period mixed_experiment = Some 30 \<and>
   experiment_temperature mixed_experiment = Some (5963 / 20) \<and>
   0 \<in> set (unique_steps mixed_experiment) \<and>
   period (mixed_store_processed ! 0) = Some 10 \<and>
   temperature (mixed_store_processed ! 0) = Some (6263 / 20) \<and>
   period (mixed_store_after ! 0) = Some 10 \<and>
   temperature (mixed_store_after ! 0) = Some (6263 / 20) \<and>
   1 \<in> set (unique_steps mixed_experiment) \<and>
   period (mixed_store_processed ! 1) = None \<and>
   temperature (mixed_store_processed ! 1) = None \<and>
   period (mixed_store_after ! 1) = Some 30 \<and>
   temperature (mixed_store_after ! 1) = Some (5963 / 20) \<and>
   inject_defaults (experiment_period mixed_experiment) (experiment_temperature mixed_experiment)
     mixed_store_after (unique_steps mixed_experiment) = mixed_store_after"
proof -
  have v: "valid_conditions mixed_store mixed_conditions"
    by (simp add: valid_conditions_def raw_instructions_def as_cycle_def mixed_conditions_def
        mixed_store_def)
  note sb = mixed_store_before_injection
  have ep: "experiment_period mixed_experiment = Some 30"
    and et: "experiment_temperature mixed_experiment = Some (5963 / 20)"
    and m0: "0 \<in> set (unique_steps mixed_experiment)"
    and m1: "1 \<in> set (unique_steps mixed_experiment)"
    by (simp_all add: mixed_experiment_def)
  have b0: "period (mixed_store_processed ! 0) = Some 10"
    and c0: "temperature (mixed_store_processed ! 0) = Some (6263 / 20)"
    and b1: "period (mixed_store_processed ! 1) = None"
    and c1: "temperature (mixed_store_processed ! 1) = None"
    by (simp_all add: mixed_store_processed_def mixed_store_def)
  note th = constructor_default_injection [OF mixed_run v, unfolded sb]
  from th m0 have "period (mixed_store_after ! 0)
      = (if period (mixed_store_processed ! 0) = None then experiment_period mixed_experiment
         else period (mixed_store_processed ! 0)) \<and>
     temperature (mixed_store_after ! 0)
      = (if temperature (mixed_store_processed ! 0) = None
         then experiment_temperature mixed_experiment
         else temperature (mixed_store_processed ! 0))"
    by blast
  with b0 c0 have r0: "period (mixed_store_after ! 0) = Some 10"
    "temperature (mixed_store_after ! 0) = Some (6263 / 20)" by simp_all
  from th m1 have "period (mixed_store_after ! 1)
      = (if period (mixed_store_processed ! 1) = None then experiment_period mixed_experiment
         else period (mixed_store_processed ! 1)) \<and>
     temperature (mixed_store_after ! 1)
      = (if temperature (mixed_store_processed ! 1) = None
         then experiment_temperature mixed_experiment
         else temperature (mixed_store_processed ! 1))"
    by blast
  with b1 c1 ep et have r1: "period (mixed_store_after ! 1) = Some 30"
    "temperature (mixed_store_after ! 1) = Some (5963 / 20)" by simp_all
  from th have again: "inject_defaults (experiment_period mixed_experiment)
     (experiment_temperature mixed_experiment) mixed_store_after (unique_steps mixed_experiment)
     = mixed_store_after" by blast
  from mixed_run v sb ep et m0 b0 c0 r0 m1 b1 c1 r1 again show ?thesis by blast
qed

text \<open>
  C8. A value other than \<^verbatim>\<open>None\<close> for \<^verbatim>\<open>drive_cycles\<close> or for \<^verbatim>\<open>cccv_handling\<close> makes
  the constructor raise its \<^verbatim>\<open>ValueError\<close> for that argument, whatever the other
  arguments are, and no experiment is returned.
\<close>

theorem deprecated_arguments_raise:
  assumes "drive_cycles \<noteq> None \<or> cccv_handling \<noteq> None"
  shows "Experiment_init E h operating_conditions period_arg temperature_arg termination_arg
           drive_cycles cccv_handling
         = Inl (if cccv_handling \<noteq> None then cccv_handling_error else drive_cycles_error)"
  using assms by (auto simp: Experiment_init_def)

theorem deprecated_arguments_raise_witness:
  "Some ''US06'' \<noteq> None \<and> Some ''ode'' \<noteq> None \<and>
   Experiment_init example_env [] rest_charge_rest ''1 minute'' None TermNone
       (Some ''US06'') (None :: string option) = Inl drive_cycles_error \<and>
   Experiment_init example_env [] rest_charge_rest ''1 minute'' None TermNone
       (None :: string option) (Some ''ode'') = Inl cccv_handling_error"
proof -
  have h1: "Some ''US06'' \<noteq> None \<or> (None :: string option) \<noteq> None" by simp
  have h2: "(None :: string option) \<noteq> None \<or> Some ''ode'' \<noteq> None" by simp
  from deprecated_arguments_raise [OF h1]
  have c1: "Experiment_init example_env [] rest_charge_rest ''1 minute'' None
              TermNone (Some ''US06'') (None :: string option) = Inl drive_cycles_error"
    by simp
  from deprecated_arguments_raise [OF h2]
  have c2: "Experiment_init example_env [] rest_charge_rest ''1 minute'' None
              TermNone (None :: string option) (Some ''ode'') = Inl cccv_handling_error"
    by simp
  from c1 c2 show ?thesis by simp
qed

text \<open>
  C9. In a constructed experiment, \<^verbatim>\<open>cycle_lengths[i]\<close> is the length of
  \<^verbatim>\<open>operating_conditions_cycles[i]\<close> for every \<open>i\<close>; and when the operating conditions
  are N ungrouped instructions, there are N cycles, each of length 1, and
  \<^verbatim>\<open>cycle_lengths\<close> is \<^verbatim>\<open>[1] * N\<close>.
\<close>

theorem cycle_lengths_shape:
  assumes "Experiment_init E h operating_conditions period_arg temperature_arg termination_arg
             drive_cycles cccv_handling = Inr (h', e)"
  shows "length (cycle_lengths e) = length (operating_conditions_cycles e) \<and>
         (\<forall>i < length (operating_conditions_cycles e).
            cycle_lengths e ! i = length (operating_conditions_cycles e ! i)) \<and>
         (list_all is_Single operating_conditions \<longrightarrow>
            length (operating_conditions_cycles e) = length operating_conditions \<and>
            list_all (\<lambda>cycle. length cycle = 1) (operating_conditions_cycles e) \<and>
            cycle_lengths e = replicate (length operating_conditions) 1)"
proof -
  note f = Experiment_init_Inr(2,3) [OF assms]
  have "list_all is_Single operating_conditions \<Longrightarrow> map length (map as_cycle operating_conditions)
          = replicate (length operating_conditions) 1"
  proof (induction operating_conditions)
    case Nil
    then show ?case by simp
  next
    case (Cons c cs)
    then show ?case by (cases c) (simp_all add: as_cycle_def)
  qed
  moreover have "list_all is_Single operating_conditions \<Longrightarrow>
     list_all (\<lambda>cycle. length cycle = 1) (map as_cycle operating_conditions)"
  proof (induction operating_conditions)
    case Nil
    then show ?case by simp
  next
    case (Cons c cs)
    then show ?case by (cases c) (simp_all add: as_cycle_def)
  qed
  ultimately show ?thesis by (simp add: f)
qed

theorem cycle_lengths_shape_witness:
  "Experiment_init example_env [] rest_charge_rest ''1 minute'' None TermNone
     (None :: unit option) (None :: unit option)
   = Inr (rest_charge_rest_store, rest_charge_rest_experiment) \<and>
   list_all is_Single rest_charge_rest \<and>
   length (operating_conditions_cycles rest_charge_rest_experiment) = length rest_charge_rest \<and>
   cycle_lengths rest_charge_rest_experiment = replicate (length rest_charge_rest) 1 \<and>
   cycle_lengths rest_charge_rest_experiment ! 2
     = length (operating_conditions_cycles rest_charge_rest_experiment ! 2)"
proof -
  have s: "list_all is_Single rest_charge_rest" by (simp add: rest_charge_rest_def)
  have l: "2 < length (operating_conditions_cycles rest_charge_rest_experiment)"
    by (simp add: rest_charge_rest_experiment_def)
  from cycle_lengths_shape [OF rest_charge_rest_run] s l
  have "length (operating_conditions_cycles rest_charge_rest_experiment) = length rest_charge_rest \<and>
        cycle_lengths rest_charge_rest_experiment = replicate (length rest_charge_rest) 1 \<and>
        cycle_lengths rest_charge_rest_experiment ! 2
          = length (operating_conditions_cycles rest_charge_rest_experiment ! 2)"
    by blast
  with rest_charge_rest_run s show ?thesis by blast
qed

text \<open>
  C1. When the same instruction string stands at two positions \<open>i\<close> and \<open>j\<close> of the
  operating conditions (in one cycle or in two), \<^verbatim>\<open>operating_conditions_steps\<close> holds
  the same Step object at both: the same address of the store, so that a write to the
  Step reached through one position is read through the other.
\<close>

theorem same_string_same_step:
  assumes "Experiment_init E h operating_conditions period_arg temperature_arg termination_arg
             drive_cycles cccv_handling = Inr (h', e)"
    and "i < length (raw_instructions operating_conditions)"
    and "j < length (raw_instructions operating_conditions)"
    and "raw_instructions operating_conditions ! i = Str s"
    and "raw_instructions operating_conditions ! j = Str s"
  shows "i < length (operating_conditions_steps e) \<and> j < length (operating_conditions_steps e) \<and>
         operating_conditions_steps e ! i = operating_conditions_steps e ! j \<and>
         operating_conditions_steps e ! i < length h' \<and>
         (\<forall>st. (h'[operating_conditions_steps e ! i := st]) ! (operating_conditions_steps e ! j) = st)"
proof -
  let ?raw = "raw_instructions operating_conditions"
  let ?ops = "operating_conditions_steps e"
  from Experiment_init_Inr(1) [OF assms(1)] obtain h1 d1 where
    run: "process_steps E h [] (py_set (instruction_eq (step_key E) h) ?raw) = Inr (h1, d1)"
    and ops: "map_result (dict_get (instruction_eq (step_key E) h1) d1) ?raw = Inr ?ops"
    and h': "h' = inject_defaults (experiment_period e) (experiment_temperature e) h1 (unique_steps e)"
    by blast
  from map_result_Inr [OF ops] have len: "length ?ops = length ?raw"
    and get: "\<And>k. k < length ?raw \<Longrightarrow>
                dict_get (instruction_eq (step_key E) h1) d1 (?raw ! k) = Inr (?ops ! k)"
    by simp_all
  from get [OF assms(2)] get [OF assms(3)] assms(4,5) have same: "?ops ! i = ?ops ! j" by simp
  from get [OF assms(2)] assms(4) obtain k where
    k: "(k, ?ops ! i) \<in> set d1" "instruction_eq (step_key E) h1 k (Str s)"
    using dict_get_entry by fastforce
  then have "k = Str s" by simp
  moreover have "\<forall>e \<in> set d1. str_entry_ok E (length h) h1 e"
    using process_steps_str_entries [OF run, of "length h"] by simp
  ultimately have "str_entry_ok E (length h) h1 (Str s, ?ops ! i)" using k(1) by blast
  then have valid: "?ops ! i < length h'" by (simp add: h')
  with len same assms(2,3) show ?thesis by simp
qed

theorem same_string_same_step_witness:
  "Experiment_init example_env [] rest_charge_rest ''1 minute'' None TermNone
     (None :: unit option) (None :: unit option)
   = Inr (rest_charge_rest_store, rest_charge_rest_experiment) \<and>
   raw_instructions rest_charge_rest ! 0 = Str ''Rest for 1 hour'' \<and>
   raw_instructions rest_charge_rest ! 2 = Str ''Rest for 1 hour'' \<and>
   operating_conditions_steps rest_charge_rest_experiment ! 0
     = operating_conditions_steps rest_charge_rest_experiment ! 2 \<and>
   operating_conditions_steps rest_charge_rest_experiment ! 0 < length rest_charge_rest_store"
proof -
  have raw: "raw_instructions rest_charge_rest =
      [Str ''Rest for 1 hour'', Str ''Charge at 1 C until 4.2 V'', Str ''Rest for 1 hour'']"
    by (simp add: raw_instructions_def as_cycle_def rest_charge_rest_def)
  have r0: "raw_instructions rest_charge_rest ! 0 = Str ''Rest for 1 hour''"
    and r2: "raw_instructions rest_charge_rest ! 2 = Str ''Rest for 1 hour''"
    and l0: "0 < length (raw_instructions rest_charge_rest)"
    and l2: "2 < length (raw_instructions rest_charge_rest)"
    by (simp_all add: raw)
  from same_string_same_step [OF rest_charge_rest_run l0 l2 r0 r2]
  have "operating_conditions_steps rest_charge_rest_experiment ! 0
          = operating_conditions_steps rest_charge_rest_experiment ! 2 \<and>
        operating_conditions_steps rest_charge_rest_experiment ! 0 < length rest_charge_rest_store"
    by blast
  with rest_charge_rest_run r0 r2 show ?thesis by blast
qed

text \<open>
  With the temperature argument left at \<^verbatim>\<open>None\<close>, a Step that has no temperature of
  its own still has none when the constructor has returned: the Step at address 0 of
  the first run.
\<close>

theorem temperature_left_None_counterexample:
  "Experiment_init example_env [] rest_charge_rest ''1 minute'' None TermNone
     (None :: unit option) (None :: unit option)
   = Inr (rest_charge_rest_store, rest_charge_rest_experiment) \<and>
   0 \<in> set (unique_steps rest_charge_rest_experiment) \<and>
   temperature (rest_charge_rest_store ! 0) = None"
  using rest_charge_rest_run
  by (simp add: rest_charge_rest_experiment_def rest_charge_rest_store_def)

text \<open>
  C2, amended. For every constructed experiment and every Step \<open>a\<close> of its
  \<^verbatim>\<open>unique_steps\<close>: the Step is an object of the store; it is a pre-built Step of the
  operating conditions or was created from one of their strings; its period after
  construction is its own where it had one and the experiment-wide period otherwise,
  and likewise its temperature. So the period is not \<^verbatim>\<open>None\<close> when the experiment-wide
  period is not, and the temperature is not \<^verbatim>\<open>None\<close> when the experiment-wide
  temperature is not. (When the experiment-wide temperature is \<^verbatim>\<open>None\<close>, a Step
  without a temperature of its own keeps \<^verbatim>\<open>None\<close>.)
\<close>

theorem unique_steps_resolved:
  assumes "Experiment_init E h operating_conditions period_arg temperature_arg termination_arg
             drive_cycles cccv_handling = Inr (h', e)"
    and "valid_conditions h operating_conditions"
    and "a \<in> set (unique_steps e)"
  shows "a < length h' \<and>
         (\<exists>st. ((a < length h \<and> st = h ! a) \<or>
                (length h \<le> a \<and>
                 (\<exists>s. Str s \<in> set (raw_instructions operating_conditions) \<and>
                      string_step E s = Inr st))) \<and>
               period (h' ! a) = (if period st = None then experiment_period e else period st) \<and>
               temperature (h' ! a)
                 = (if temperature st = None then experiment_temperature e else temperature st)) \<and>
         (experiment_period e \<noteq> None \<longrightarrow> period (h' ! a) \<noteq> None) \<and>
         (experiment_temperature e \<noteq> None \<longrightarrow> temperature (h' ! a) \<noteq> None)"
proof -
  let ?raw = "raw_instructions operating_conditions"
  let ?p = "experiment_period e" and ?t = "experiment_temperature e"
  from Experiment_init_store [OF assms(1,2)] obtain h1 d1 new where
    h1: "h1 = h @ new"
    and new: "\<forall>st \<in> set new. \<exists>s. Str s \<in> set ?raw \<and> string_step E s = Inr st"
    and ok: "\<forall>en \<in> set d1. entry_ok E (length h) h1 en"
    and uniq: "unique_steps e = py_set (step_eq (step_key E) h1) (map snd d1)"
    and h': "h' = inject_defaults ?p ?t h1 (unique_steps e)"
    by blast
  from assms(3) uniq py_set_subset [of "step_eq (step_key E) h1" "map snd d1"]
  obtain k where k: "(k, a) \<in> set d1" by auto
  with ok have eok: "entry_ok E (length h) h1 (k, a)" by blast
  have a1: "a < length h1"
    using eok h1 by (cases k) auto
  then have a': "a < length h'" by (simp add: h')
  have val: "h' ! a = inject_step ?p ?t (h1 ! a)"
    using a1 assms(3) by (simp add: h' inject_defaults_nth)
  have src: "(a < length h \<and> h1 ! a = h ! a) \<or>
             (length h \<le> a \<and> (\<exists>s. Str s \<in> set ?raw \<and> string_step E s = Inr (h1 ! a)))"
  proof (cases "a < length h")
    case True
    then show ?thesis by (simp add: h1 nth_append)
  next
    case False
    with a1 have "h1 ! a \<in> set new" by (auto simp: h1 nth_append)
    with new False show ?thesis by auto
  qed
  have "\<exists>st. ((a < length h \<and> st = h ! a) \<or>
               (length h \<le> a \<and> (\<exists>s. Str s \<in> set ?raw \<and> string_step E s = Inr st))) \<and>
             period (h' ! a) = (if period st = None then ?p else period st) \<and>
             temperature (h' ! a) = (if temperature st = None then ?t else temperature st)"
  proof (intro exI [of _ "h1 ! a"] conjI)
    show "(a < length h \<and> h1 ! a = h ! a) \<or>
          (length h \<le> a \<and> (\<exists>s. Str s \<in> set ?raw \<and> string_step E s = Inr (h1 ! a)))"
      by (rule src)
    show "period (h' ! a) = (if period (h1 ! a) = None then ?p else period (h1 ! a))"
      by (simp add: val)
    show "temperature (h' ! a) = (if temperature (h1 ! a) = None then ?t else temperature (h1 ! a))"
      by (simp add: val)
  qed
  moreover have "?p \<noteq> None \<longrightarrow> period (h' ! a) \<noteq> None" by (simp add: val)
  moreover have "?t \<noteq> None \<longrightarrow> temperature (h' ! a) \<noteq> None" by (simp add: val)
  ultimately show ?thesis using a' by blast
qed

theorem unique_steps_resolved_witness:
  "Experiment_init example_env mixed_store mixed_conditions ''30 seconds'' (Some 25)
     (TermStr ''2.5 V'') (None :: unit option) (None :: unit option)
   = Inr (mixed_store_after, mixed_experiment) \<and>
   valid_conditions mixed_store mixed_conditions \<and>
   1 \<in> set (unique_steps mixed_experiment) \<and>
   experiment_period mixed_experiment \<noteq> None \<and>
   experiment_temperature mixed_experiment \<noteq> None \<and>
   1 < length mixed_store_after \<and>
   period (mixed_store_after ! 1) \<noteq> None \<and>
   temperature (mixed_store_after ! 1) \<noteq> None"
proof -
  have v: "valid_conditions mixed_store mixed_conditions"
    by (simp add: valid_conditions_def raw_instructions_def as_cycle_def mixed_conditions_def
        mixed_store_def)
  have m: "1 \<in> set (unique_steps mixed_experiment)" by (simp add: mixed_experiment_def)
  have p: "experiment_period mixed_experiment \<noteq> None"
    and t: "experiment_temperature mixed_experiment \<noteq> None"
    by (simp_all add: mixed_experiment_def)
  from unique_steps_resolved [OF mixed_run v m] p t
  have "1 < length mixed_store_after \<and> period (mixed_store_after ! 1) \<noteq> None \<and>
        temperature (mixed_store_after ! 1) \<noteq> None"
    by blast
  with mixed_run v m p t show ?thesis by blast
qed




subsection \<open>\<^verbatim>\<open>Experiment.copy\<close>\<close>









subsection \<open>\<^verbatim>\<open>Experiment.search_tag\<close>\<close>

lemmas search_eval =
  search_tag_def str_split_def startswith_def not_iterable_error_def unpack_error_def

text \<open>
  When \<^verbatim>\<open>search_tag\<close> returns, the indices are in strictly ascending order, so each
  occurs once, and each is the index of a cycle. A cycle of strings without
  \<^verbatim>\<open>" ["\<close> is never reported. The example of the spec gives \<^verbatim>\<open>[0, 2]\<close> and \<^verbatim>\<open>[1, 2]\<close>.
\<close>

lemma search_cycles_sorted:
  "search_cycles tag i acc cycles = Inr r \<Longrightarrow> sorted_wrt (<) acc \<Longrightarrow> (\<forall>j \<in> set acc. j < i) \<Longrightarrow>
     sorted_wrt (<) r \<and> (\<forall>j \<in> set r. j < i + length cycles)"
proof (induction cycles arbitrary: i acc)
  case Nil
  then show ?case by simp
next
  case (Cons c cs)
  from Cons.prems(1) obtain found where f: "search_cycle tag c = Inr found"
    and rest: "search_cycles tag (Suc i) (if found then acc @ [i] else acc) cs = Inr r"
    by (auto split: sum.splits)
  let ?acc = "if found then acc @ [i] else acc"
  have "sorted_wrt (<) ?acc" using Cons.prems(2,3) by (simp add: sorted_wrt_append)
  moreover have "\<forall>j \<in> set ?acc. j < Suc i" using Cons.prems(3) by auto
  ultimately have "sorted_wrt (<) r \<and> (\<forall>j \<in> set r. j < Suc i + length cs)"
    using Cons.IH [OF rest] by blast
  then show ?case by simp
qed

lemma search_tag_sorted:
  assumes "search_tag self tag = Inr r"
  shows "sorted_wrt (<) r \<and> distinct r \<and>
         (\<forall>j \<in> set r. j < length (operating_conditions_cycles self))"
proof -
  from assms have "search_cycles tag 0 [] (operating_conditions_cycles self) = Inr r"
    by (simp add: search_tag_def)
  from search_cycles_sorted [OF this] have
    s: "sorted_wrt (<) r" and b: "\<forall>j \<in> set r. j < length (operating_conditions_cycles self)"
    by simp_all
  from s have "distinct r" by (simp add: strict_sorted_iff)
  with s b show ?thesis by blast
qed

lemma search_cycle_untagged:
  "(\<forall>x \<in> set cycle. \<exists>s. x = Str s \<and> \<not> str_contains '' ['' s) \<Longrightarrow>
     search_cycle tag cycle = Inr False"
proof (induction cycle)
  case Nil
  then show ?case by simp
next
  case (Cons x xs)
  then obtain s where "x = Str s" "\<not> str_contains '' ['' s" by auto
  with Cons show ?case by simp
qed

lemma search_tag_spec_example:
  "operating_conditions_cycles self = tagged_cycles \<Longrightarrow>
     search_tag self ''tag1'' = Inr [0, 2] \<and> search_tag self ''tag2'' = Inr [1, 2]"
  by (simp add: search_eval tagged_cycles_def)

text \<open>
  C6. \<^verbatim>\<open>search_tag\<close> is claimed to skip pre-built Step objects without error. On the
  experiment of the second run, whose first cycle holds the Step object at address 0
  after an untagged string, the test \<^verbatim>\<open>" [" in cond\<close> raises \<^verbatim>\<open>TypeError\<close> instead.
\<close>

theorem search_tag_raises_on_step_object:
  "Experiment_init example_env mixed_store mixed_conditions ''30 seconds'' (Some 25)
     (TermStr ''2.5 V'') (None :: unit option) (None :: unit option)
   = Inr (mixed_store_after, mixed_experiment) \<and>
   operating_conditions_cycles mixed_experiment
     = [[Str ''Rest for 1 hour'', StepObj 0], [StepObj 1], [Str ''Rest for 1 hour'']] \<and>
   search_tag mixed_experiment ''tag1'' = Inl not_iterable_error"
  using mixed_run by (simp add: search_eval mixed_experiment_def)

end
